theory Spec2Isabelle
  imports Main "HOL-Library.Sublist" "HOL-Library.List_Lexorder"
begin

section \<open>Python strings\<close>

text \<open>
  A Python \<open>str\<close> is a \<open>string\<close> (a list of characters). The membership test
  \<open>a in b\<close> on two strings is \<open>sublist a b\<close>: \<open>a\<close> occurs in \<open>b\<close> as a contiguous,
  case-sensitive run. The slice \<open>s[:-5]\<close> is \<open>take (length s - 5) s\<close>; the truncating
  subtraction of \<open>nat\<close> gives the empty string for a string shorter than five characters,
  as Python's slice does.
\<close>

text \<open>
  \<open>str.lower()\<close>. The table covers the ASCII letters; every other character is left as it
  is. The source only compares the lowered text with \<open>'reachable'\<close>, and no character
  outside A-Z is lowered by Python to one of the letters of that word.
\<close>

definition lower_char :: "char \<Rightarrow> char" where
  "lower_char c =
     (case map_of (zip ''ABCDEFGHIJKLMNOPQRSTUVWXYZ'' ''abcdefghijklmnopqrstuvwxyz'') c of
        Some l \<Rightarrow> l
      | None \<Rightarrow> c)"

definition lower :: "string \<Rightarrow> string" where
  "lower s = map lower_char s"

text \<open>\<open>str(x)\<close> for a boolean, for an optional string (\<open>str(None)\<close> is \<open>'None'\<close>) and
  for a natural number.\<close>

definition str_bool :: "bool \<Rightarrow> string" where
  "str_bool b = (if b then ''True'' else ''False'')"

definition str_opt :: "string option \<Rightarrow> string" where
  "str_opt x = (case x of None \<Rightarrow> ''None'' | Some s \<Rightarrow> s)"

definition digit :: "nat \<Rightarrow> char" where
  "digit n = ''0123456789'' ! n"

fun str_nat :: "nat \<Rightarrow> string" where
  "str_nat n = (if n < 10 then [digit n] else str_nat (n div 10) @ [digit (n mod 10)])"

declare str_nat.simps [simp del]

text \<open>\<open>sep.join(xs)\<close> and \<open>s.split(sep)\<close> for a one-character separator.\<close>

fun join :: "char \<Rightarrow> string list \<Rightarrow> string" where
  "join sep [] = []"
| "join sep [x] = x"
| "join sep (x # y # ys) = x @ sep # join sep (y # ys)"

fun split :: "char \<Rightarrow> string \<Rightarrow> string list" where
  "split sep [] = [[]]"
| "split sep (c # cs) =
     (if c = sep then [] # split sep cs
      else (case split sep cs of
              [] \<Rightarrow> [[c]]
            | w # ws \<Rightarrow> (c # w) # ws))"

text \<open>\<open>base64.b64encode\<close> on the bytes of a string (RFC 4648, with padding).\<close>

definition b64_char :: "nat \<Rightarrow> char" where
  "b64_char n =
     ''ABCDEFGHIJKLMNOPQRSTUVWXYZabcdefghijklmnopqrstuvwxyz0123456789+/'' ! (n mod 64)"

fun b64encode :: "string \<Rightarrow> string" where
  "b64encode [] = []"
| "b64encode [a] =
     (let n = of_char a * 65536
      in [b64_char (n div 262144), b64_char (n div 4096), CHR ''='', CHR ''=''])"
| "b64encode [a, b] =
     (let n = of_char a * 65536 + of_char b * 256
      in [b64_char (n div 262144), b64_char (n div 4096), b64_char (n div 64), CHR ''=''])"
| "b64encode (a # b # c # rest) =
     (let n = of_char a * 65536 + of_char b * 256 + of_char c
      in [b64_char (n div 262144), b64_char (n div 4096), b64_char (n div 64), b64_char n]
         @ b64encode rest)"

section \<open>The credential context\<close>

text \<open>
  The instance attributes set by \<open>CspcApi.__init__\<close>. The dictionary \<open>self.kwargs\<close> has the
  two keys \<open>'verify'\<close> and \<open>'headers'\<close>; the header dictionary is an association list in
  insertion order. The logger and the process-wide \<open>urllib3.disable_warnings()\<close> do not
  influence any value computed below and are left out.
\<close>

record request_kwargs =
  kw_verify :: bool
  kw_headers :: "(string \<times> string) list"

record CspcApi =
  host :: string
  user :: string
  password :: string
  creds :: string
  encodedAuth :: string
  headers :: "(string \<times> string) list"
  kwargs :: request_kwargs

definition CspcApi_init :: "string \<Rightarrow> string \<Rightarrow> string \<Rightarrow> bool \<Rightarrow> CspcApi" where
  "CspcApi_init host0 user0 pwd verify =
     (let creds0 = user0 @ '':'' @ pwd;
          encodedAuth0 = b64encode creds0;
          headers0 = [(''accept'', ''application/xml''),
                      (''Authorization'', ''Basic'' @ '' '' @ encodedAuth0),
                      (''cache-control'', ''no-cache'')]
      in \<lparr>host = host0 @ '':8001'',
          user = user0,
          password = pwd,
          creds = creds0,
          encodedAuth = encodedAuth0,
          headers = headers0,
          kwargs = \<lparr>kw_verify = verify, kw_headers = headers0\<rparr>\<rparr>)"

text \<open>\<open>CspcApi.__str__\<close>; \<open>type(self).__name__\<close> is \<open>'CspcApi'\<close>.\<close>

definition CspcApi_str :: "CspcApi \<Rightarrow> string" where
  \<open>CspcApi_str self =
     ''CspcApi'' @ ''("'' @ take (length (host self) - 5) (host self) @ ''", "'' @ user self
       @ ''", "'' @ password self @ ''", '' @ str_bool (kw_verify (kwargs self)) @ '')''\<close>

section \<open>XML elements\<close>

text \<open>
  An \<open>xml.etree.ElementTree.Element\<close>: its tag, its attributes, its text (the selector
  \<open>etext\<close>; \<open>None\<close> for an element without text) and its children in document order.
\<close>

datatype element =
  Element (tag: string) (attrib: "(string \<times> string) list") (etext: "string option")
    (children: "element list")

text \<open>
  The path arguments of \<open>find\<close>, \<open>findall\<close> and \<open>findtext\<close> are ElementPath expressions.
  The functions below give their meaning for a plain name only: a non-empty string of ASCII
  letters, digits, underscore and hyphen. Such a string is one tag token for ElementPath (it
  holds no operator character, quote, brace, colon or white space), and as a path it selects
  the children whose tag is exactly that string. Paths outside this set (\<open>*\<close>, \<open>/a\<close>,
  \<open>a[\<close>, \<open>@x\<close>, \<open>{*}a\<close>, ...) are not modelled; every statement about a path that is
  not a literal of the source assumes \<open>plain_name\<close>.
\<close>

definition plain_name :: "string \<Rightarrow> bool" where
  "plain_name s \<longleftrightarrow>
     s \<noteq> [] \<and>
     list_all
       (\<lambda>c. c \<in> set ''ABCDEFGHIJKLMNOPQRSTUVWXYZabcdefghijklmnopqrstuvwxyz0123456789_-'') s"

text \<open>\<open>Element.iter()\<close>: the element and all its descendants, in document order.\<close>

fun iter :: "element \<Rightarrow> element list" where
  "iter (Element t a x cs) = Element t a x cs # concat (map iter cs)"

text \<open>
  \<open>elem.findall('.//T')\<close> for a plain tag name \<open>T\<close>: ElementPath walks \<open>elem.iter(T)\<close> and
  drops \<open>elem\<close> itself, so the result is every proper descendant tagged \<open>T\<close>, in document
  order.
\<close>

definition findall_descendants :: "string \<Rightarrow> element \<Rightarrow> element list" where
  "findall_descendants t e = filter (\<lambda>x. tag x = t) (concat (map iter (children e)))"

text \<open>
  \<open>elem.findtext(T)\<close> for a plain tag name \<open>T\<close>: the text of the first child tagged \<open>T\<close>,
  the empty string when that child has no text, and \<open>None\<close> when there is no such child.
  The source calls it with the literals \<open>Status\<close>, \<open>Id\<close>, \<open>HostName\<close>, \<open>IPAddress\<close>, with
  the caller's \<open>key\<close> and with the tags of a device's children; for the last two the
  definition says what the code does only when they are plain names.
\<close>

definition findtext :: "element \<Rightarrow> string \<Rightarrow> string option" where
  "findtext e t =
     (case List.find (\<lambda>c. tag c = t) (children e) of
        None \<Rightarrow> None
      | Some c \<Rightarrow> (case etext c of None \<Rightarrow> Some [] | Some s \<Rightarrow> Some s))"

text \<open>
  Python hands out elements by reference: an element obtained from a tree can be mutated,
  and the tree changes with it. The reference is modelled as the position of the element in
  the tree, the list of child indices leading to it from the root.
\<close>

type_synonym handle = "nat list"

fun iter_paths :: "element \<Rightarrow> (handle \<times> element) list"
  and iter_paths_from :: "nat \<Rightarrow> element list \<Rightarrow> (handle \<times> element) list" where
  "iter_paths (Element t a x cs) = ([], Element t a x cs) # iter_paths_from 0 cs"
| "iter_paths_from i [] = []"
| "iter_paths_from i (c # cs) =
     map (\<lambda>(p, e). (i # p, e)) (iter_paths c) @ iter_paths_from (Suc i) cs"

fun elem_at :: "element \<Rightarrow> handle \<Rightarrow> element option" where
  "elem_at e [] = Some e"
| "elem_at e (i # p) =
     (if i < length (children e) then elem_at (children e ! i) p else None)"

text \<open>\<open>Element.append(child)\<close> on the element a handle points to.\<close>

fun append_at :: "element \<Rightarrow> handle \<Rightarrow> element \<Rightarrow> element" where
  "append_at (Element t a x cs) [] c = Element t a x (cs @ [c])"
| "append_at (Element t a x cs) (i # p) c =
     (if i < length cs then Element t a x (cs[i := append_at (cs ! i) p c])
      else Element t a x cs)"

section \<open>HTTP, errors and the outside world\<close>

text \<open>The arguments of one \<open>requests.post\<close> call and the fields of a response that the
  source reads.\<close>

record post_request =
  url :: string
  data :: "string option"
  files :: "(string \<times> string option \<times> string) list"
  req_headers :: "(string \<times> string) list"
  req_verify :: bool

record http_response =
  status_code :: int
  response_headers :: "(string \<times> string) list"
  response_text :: string

text \<open>
  Exceptions are values. \<open>RuntimeError\<close> carries the response it was raised with;
  \<open>RequestException\<close> stands for any failure inside \<open>requests\<close>, \<open>ParseError\<close> for one
  inside \<open>ElementTree.fromstring\<close>.
\<close>

datatype pyerror =
    RuntimeError http_response
  | TypeError
  | AttributeError
  | FileNotFoundError
  | ParseError
  | RequestException

text \<open>The broken-down local time that \<open>time.strftime\<close> formats.\<close>

record struct_time =
  tm_year :: nat
  tm_mon :: nat
  tm_mday :: nat
  tm_hour :: nat
  tm_min :: nat
  tm_sec :: nat

text \<open>
  What the client touches outside itself: the appliance behind the network (\<open>respond\<close>),
  the requests posted so far, oldest first (\<open>sent\<close>), the clock, and the files of the
  directory \<open>xml_requests\<close> by name.
\<close>

record world =
  respond :: "post_request \<Rightarrow> pyerror + http_response"
  sent :: "post_request list"
  localtime :: struct_time
  xml_requests :: "string \<Rightarrow> string option"

text \<open>
  \<open>time.strftime(format)\<close> on the clock reading, for the directives the source uses:
  \<open>%Y\<close> the year in decimal, \<open>%m %d %H %M %S\<close> two digits each.
\<close>

definition pad2 :: "nat \<Rightarrow> string" where
  "pad2 n = (if n < 10 then ''0'' @ str_nat n else str_nat n)"

definition directive :: "char \<Rightarrow> struct_time \<Rightarrow> string" where
  "directive d t =
     (if d = CHR ''Y'' then str_nat (tm_year t)
      else if d = CHR ''m'' then pad2 (tm_mon t)
      else if d = CHR ''d'' then pad2 (tm_mday t)
      else if d = CHR ''H'' then pad2 (tm_hour t)
      else if d = CHR ''M'' then pad2 (tm_min t)
      else if d = CHR ''S'' then pad2 (tm_sec t)
      else [CHR ''%'', d])"

fun strftime :: "string \<Rightarrow> struct_time \<Rightarrow> string" where
  "strftime [] t = []"
| "strftime [c] t = [c]"
| "strftime (c # d # fmt) t =
     (if c = CHR ''%'' then directive d t @ strftime fmt t
      else c # strftime (d # fmt) t)"

declare strftime.simps [simp del]

section \<open>Transport\<close>

text \<open>
  \<open>CspcApi._xml\<close>: one \<open>requests.post(link, payload, **self.kwargs)\<close>. The call is added
  to the posted requests whatever the outcome; a failure inside \<open>requests\<close> propagates; a
  status other than 200 raises \<open>RuntimeError(response)\<close>. The debug log lines are left out.
\<close>

definition xml :: "CspcApi \<Rightarrow> string \<Rightarrow> world \<Rightarrow> (pyerror + string) \<times> world" where
  "xml self payload w =
     (let link = ''https://'' @ host self @ ''/cspc/xml'';
          req = \<lparr>url = link, data = Some payload, files = [],
                 req_headers = kw_headers (kwargs self), req_verify = kw_verify (kwargs self)\<rparr>;
          w' = w\<lparr>sent := sent w @ [req]\<rparr>
      in (case respond w req of
            Inl e \<Rightarrow> (Inl e, w')
          | Inr response \<Rightarrow>
              (let body = response_text response
               in if status_code response \<noteq> 200 then (Inl (RuntimeError response), w')
                  else (Inr body, w'))))"

text \<open>\<open>CspcApi._get_xml_payload\<close>: the content of a file of \<open>xml_request_dir\<close>.\<close>

definition get_xml_payload :: "string \<Rightarrow> world \<Rightarrow> pyerror + string" where
  "get_xml_payload request_name w =
     (case xml_requests w request_name of
        None \<Rightarrow> Inl FileNotFoundError
      | Some payload \<Rightarrow> Inr payload)"

text \<open>
  \<open>CspcApi._get_xml_elem\<close>: \<open>elem_tree.find('.//ns:' + path, namespaces=ns)\<close> for a plain
  name \<open>path\<close>. ElementPath rewrites \<open>ns:path\<close> to \<open>{uri}path\<close>, walks the proper
  descendants of \<open>elem_tree\<close> in document order and returns the first one with that tag, or
  \<open>None\<close>. The source has no \<open>raise\<close> of its own, and for a plain name ElementPath raises
  nothing: the result is on the right. Other paths are not covered by this definition.
\<close>

definition ns_uri :: string where
  "ns_uri = ''http://www.parinetworks.com/api/schemas/1.1''"

definition qname :: "string \<Rightarrow> string" where
  "qname path = ''{'' @ ns_uri @ ''}'' @ path"

definition get_xml_elem :: "string \<Rightarrow> element \<Rightarrow> pyerror + handle option" where
  "get_xml_elem path elem_tree =
     Inr (map_option fst
            (List.find (\<lambda>(p, e). tag e = qname path)
               (iter_paths_from 0 (children elem_tree))))"

text \<open>
  What the callers do with the result, \<open>device_list.append(elem)\<close>: on \<open>None\<close> the
  attribute lookup raises \<open>AttributeError\<close>; on an element the child is appended in place.
\<close>

definition append_child :: "element \<Rightarrow> handle option \<Rightarrow> element \<Rightarrow> pyerror + element" where
  "append_child elem_tree h child =
     (case h of
        None \<Rightarrow> Inl AttributeError
      | Some p \<Rightarrow> Inr (append_at elem_tree p child))"

text \<open>The f-string \<open>xmlrequest\<close> of \<open>send_and_import_seed_file_csv\<close>, character by
  character.\<close>

definition xmlrequest :: "string \<Rightarrow> string \<Rightarrow> string" where
  \<open>xmlrequest device_group_name seed_file_name =
     ''\<newline>''
     @ ''        <Request>'' @ ''\<newline>''
     @ ''            <Job>'' @ ''\<newline>''
     @ ''                <Schedule operationId="1">'' @ ''\<newline>''
     @ ''                <JobSchedule runnow="true"/>'' @ ''\<newline>''
     @ ''                <ImportSeedFileJob jobName="testimport">'' @ ''\<newline>''
     @ ''                    <Description>Import SeedFile Job </Description>'' @ ''\<newline>''
     @ ''                    <DeviceGroup>'' @ device_group_name @ ''</DeviceGroup>'' @ ''\<newline>''
     @ ''                    <SeedFileDescr>cnc seed file</SeedFileDescr>'' @ ''\<newline>''
     @ ''                    <SeedFileFormat>CISCO_CNC_CSV</SeedFileFormat>'' @ ''\<newline>''
     @ ''                    <FileDetails>'' @ ''\<newline>''
     @ ''                    <SeedFileName>'' @ seed_file_name @ ''</SeedFileName>'' @ ''\<newline>''
     @ ''                    </FileDetails>'' @ ''\<newline>''
     @ ''                    <TriggerDiscovery>true</TriggerDiscovery>'' @ ''\<newline>''
     @ ''                    <TriggerDav>false</TriggerDav>'' @ ''\<newline>''
     @ ''                </ImportSeedFileJob>'' @ ''\<newline>''
     @ ''                </Schedule>'' @ ''\<newline>''
     @ ''            </Job>'' @ ''\<newline>''
     @ ''        </Request>'' @ ''\<newline>''
     @ ''        ''\<close>

text \<open>
  \<open>CspcApi.send_and_import_seed_file_csv\<close>: one
  \<open>requests.post(link, files=files, headers=self.headers, verify=False)\<close>. The dictionary
  \<open>files\<close> maps a part name to a pair of file name (or \<open>None\<close>) and content. The status
  code is not looked at.
\<close>

definition send_and_import_seed_file_csv ::
  "CspcApi \<Rightarrow> string \<Rightarrow> string \<Rightarrow> world \<Rightarrow> (pyerror + string) \<times> world" where
  "send_and_import_seed_file_csv self csv device_group_name w =
     (let seed_file_name =
            device_group_name @ ''-'' @ strftime ''%Y%m%d-%H%M%S'' (localtime w) @ ''.csv'';
          link = ''https://'' @ host self @ ''/cspc/seedfile'';
          files0 = [(''request'', None, xmlrequest device_group_name seed_file_name),
                    (''file'', Some seed_file_name, csv)];
          req = \<lparr>url = link, data = None, files = files0,
                 req_headers = headers self, req_verify = False\<rparr>;
          w' = w\<lparr>sent := sent w @ [req]\<rparr>
      in (case respond w req of
            Inl e \<Rightarrow> (Inl e, w')
          | Inr response \<Rightarrow> (Inr (response_text response), w')))"

section \<open>Device queries\<close>

text \<open>
  \<open>CspcApi.get_devices()\<close> as the two filters call it (\<open>return_json\<close> is false): load the
  request, post it, parse the body, collect the \<open>Device\<close> elements.
  \<open>ElementTree.fromstring\<close> is a parameter: a parser that returns an element or fails.
\<close>

definition get_devices ::
  "(string \<Rightarrow> pyerror + element) \<Rightarrow> CspcApi \<Rightarrow> world \<Rightarrow> (pyerror + element list) \<times> world" where
  "get_devices fromstring self w =
     (case get_xml_payload ''get_details_of_all_devices.xml'' w of
        Inl e \<Rightarrow> (Inl e, w)
      | Inr payload \<Rightarrow>
          (case xml self payload w of
             (Inl e, w') \<Rightarrow> (Inl e, w')
           | (Inr all_devices, w') \<Rightarrow>
               (case fromstring all_devices of
                  Inl e \<Rightarrow> (Inl e, w')
                | Inr tree \<Rightarrow> (Inr (findall_descendants ''Device'' tree), w'))))"

text \<open>
  A Python \<open>dict\<close> with string keys and values is an association list in insertion order;
  \<open>d[k] = v\<close> replaces the value of a key that is present, in place, and appends a new key.
\<close>

type_synonym dict = "(string \<times> string) list"

fun setitem :: "dict \<Rightarrow> string \<Rightarrow> string \<Rightarrow> dict" where
  "setitem [] k v = [(k, v)]"
| "setitem ((k', v') # d) k v = (if k' = k then (k, v) # d else (k', v') # setitem d k v)"

text \<open>
  The loop of \<open>CspcApi.get_unreachable_devices\<close>. \<open>elem.findtext('Status').lower()\<close>
  raises \<open>AttributeError\<close> when \<open>findtext\<close> returns \<open>None\<close>; the loop then stops and the
  devices collected so far are lost.
\<close>

fun unreachable_loop :: "element list \<Rightarrow> dict list \<Rightarrow> pyerror + dict list" where
  "unreachable_loop [] unreachable_devices = Inr unreachable_devices"
| "unreachable_loop (elem # devices) unreachable_devices =
     (case findtext elem ''Status'' of
        None \<Rightarrow> Inl AttributeError
      | Some status \<Rightarrow>
          if lower status \<noteq> ''reachable''
          then (let dev_dict = [(''Id'', str_opt (findtext elem ''Id'')),
                                (''HostName'', str_opt (findtext elem ''HostName'')),
                                (''IPAddress'', str_opt (findtext elem ''IPAddress'')),
                                (''Status'', str_opt (findtext elem ''Status''))]
                in unreachable_loop devices (unreachable_devices @ [dev_dict]))
          else unreachable_loop devices unreachable_devices)"

definition get_unreachable_devices ::
  "(string \<Rightarrow> pyerror + element) \<Rightarrow> CspcApi \<Rightarrow> world \<Rightarrow> (pyerror + dict list) \<times> world" where
  "get_unreachable_devices fromstring self w =
     (case get_devices fromstring self w of
        (Inl e, w') \<Rightarrow> (Inl e, w')
      | (Inr devices, w') \<Rightarrow> (unreachable_loop devices [], w'))"

text \<open>
  The \<open>value\<close> argument of \<open>get_devices_by\<close>: a string, a set of strings, or the default
  \<open>None\<close>.
\<close>

datatype check_value = Str string | StrSet "string set" | NoneValue

text \<open>
  \<open>CspcApi._check_in_str\<close>. The first argument is what \<open>findtext\<close> returned. \<open>x in None\<close>
  raises \<open>TypeError\<close>; \<open>any\<close> over an empty set evaluates no membership test; iterating
  \<open>None\<close> raises \<open>TypeError\<close>.
\<close>

fun check_in_str :: "string option \<Rightarrow> check_value \<Rightarrow> pyerror + bool" where
  "check_in_str None (Str check) = Inl TypeError"
| "check_in_str (Some string_to_check) (Str check) = Inr (sublist check string_to_check)"
| "check_in_str None (StrSet check) = (if check = {} then Inr False else Inl TypeError)"
| "check_in_str (Some string_to_check) (StrSet check) =
     Inr (\<exists>item\<in>check. sublist item string_to_check)"
| "check_in_str string_to_check NoneValue = Inl TypeError"

text \<open>The inner loop of \<open>get_devices_by\<close>:
  \<open>device_dict[child.tag] = str(device.findtext(child.tag))\<close> for each child.\<close>

definition device_dict :: "element \<Rightarrow> dict" where
  "device_dict device =
     fold (\<lambda>child d. setitem d (tag child) (str_opt (findtext device (tag child))))
       (children device) []"

fun devices_by_loop :: "string \<Rightarrow> check_value \<Rightarrow> element list \<Rightarrow> dict list \<Rightarrow> pyerror + dict list" where
  "devices_by_loop key val [] matched_devices = Inr matched_devices"
| "devices_by_loop key val (device # devices) matched_devices =
     (case check_in_str (findtext device key) val of
        Inl e \<Rightarrow> Inl e
      | Inr True \<Rightarrow> devices_by_loop key val devices (matched_devices @ [device_dict device])
      | Inr False \<Rightarrow> devices_by_loop key val devices matched_devices)"

definition get_devices_by ::
  "(string \<Rightarrow> pyerror + element) \<Rightarrow> CspcApi \<Rightarrow> string \<Rightarrow> check_value \<Rightarrow> world
     \<Rightarrow> (pyerror + dict list) \<times> world" where
  "get_devices_by fromstring self key val w =
     (case get_devices fromstring self w of
        (Inl e, w') \<Rightarrow> (Inl e, w')
      | (Inr devices, w') \<Rightarrow> (devices_by_loop key val devices [], w'))"

section \<open>Seed file rows\<close>

text \<open>
  \<open>CspcApi.get_formatted_csv_device_entry\<close>, with the source's column variables and its
  f-string: the 36 columns separated by commas, then a newline. The arguments are strings
  and are inserted as they are.
\<close>

definition get_formatted_csv_device_entry ::
  "string \<Rightarrow> string \<Rightarrow> string \<Rightarrow> string \<Rightarrow> string \<Rightarrow> string \<Rightarrow> string \<Rightarrow> string" where
  "get_formatted_csv_device_entry ipaddress hostname username password0 enable_password
       snmp_v2_RO snmp_v2_RW =
     (let col1_IP_Address_including_domain_or_simply_an_IP = ipaddress;
          col2_Host_Name = hostname;
          col3_Domain_Name = '''';
          col4_Device_Identity = '''';
          col5_Display_Name = '''';
          col6_SysObjectID = '''';
          col7_DCR_Device_Type = '''';
          col8_MDF_Type = '''';
          col9_Snmp_RO = snmp_v2_RO;
          col10_Snmp_RW = snmp_v2_RW;
          col11_SnmpV3_User_Name = '''';
          col12_Snmp_V3_Auth_Pass = '''';
          col13_Snmp_V3_Engine_ID = '''';
          col14_Snmp_V3_Auth_Algorithm = '''';
          col15_RX_Boot_Mode_User = '''';
          col16_RX_Boot_Mode_Pass = '''';
          col17_Primary_User_Tacacs_User = username;
          col18_Primary_Pass_Tacacs_Pass = password0;
          col19_Primary_Enable_Pass = enable_password;
          col20_Http_User = '''';
          col21_Http_Pass = '''';
          col22_Http_Mode = '''';
          col23_Http_Port = '''';
          col24_Https_Port = '''';
          col25_Cert_Common_Name = '''';
          col26_Secondary_User = '''';
          col27_Secondary_Pass = '''';
          col28_Secondary_Enable_Pass = '''';
          col29_Secondary_Http_User = '''';
          col30_Secondary_Http_Pass = '''';
          col31_Snmp_V3_Priv_Algorithm = '''';
          col32_Snmp_V3_Priv_Pass = '''';
          col33_User_Field_1 = '''';
          col34_User_Field_2 = '''';
          col35_User_Field_3 = '''';
          col36_User_Field_4 = ''''
      in col1_IP_Address_including_domain_or_simply_an_IP @ '','' @
         col2_Host_Name @ '','' @
         col3_Domain_Name @ '','' @
         col4_Device_Identity @ '','' @
         col5_Display_Name @ '','' @
         col6_SysObjectID @ '','' @
         col7_DCR_Device_Type @ '','' @
         col8_MDF_Type @ '','' @
         col9_Snmp_RO @ '','' @
         col10_Snmp_RW @ '','' @
         col11_SnmpV3_User_Name @ '','' @
         col12_Snmp_V3_Auth_Pass @ '','' @
         col13_Snmp_V3_Engine_ID @ '','' @
         col14_Snmp_V3_Auth_Algorithm @ '','' @
         col15_RX_Boot_Mode_User @ '','' @
         col16_RX_Boot_Mode_Pass @ '','' @
         col17_Primary_User_Tacacs_User @ '','' @
         col18_Primary_Pass_Tacacs_Pass @ '','' @
         col19_Primary_Enable_Pass @ '','' @
         col20_Http_User @ '','' @
         col21_Http_Pass @ '','' @
         col22_Http_Mode @ '','' @
         col23_Http_Port @ '','' @
         col24_Https_Port @ '','' @
         col25_Cert_Common_Name @ '','' @
         col26_Secondary_User @ '','' @
         col27_Secondary_Pass @ '','' @
         col28_Secondary_Enable_Pass @ '','' @
         col29_Secondary_Http_User @ '','' @
         col30_Secondary_Http_Pass @ '','' @
         col31_Snmp_V3_Priv_Algorithm @ '','' @
         col32_Snmp_V3_Priv_Pass @ '','' @
         col33_User_Field_1 @ '','' @
         col34_User_Field_2 @ '','' @
         col35_User_Field_3 @ '','' @
         col36_User_Field_4 @ ''\<newline>'')"

section \<open>Example data\<close>

text \<open>Concrete inputs on which the theorems below are instantiated: leaf elements, device
  elements, a response document, a clock reading and a world whose appliance answers every
  request with status 200.\<close>

definition leaf :: "string \<Rightarrow> string \<Rightarrow> element" where
  "leaf t s = Element t [] (Some s) []"

definition ex_device :: "string \<Rightarrow> string \<Rightarrow> string \<Rightarrow> string \<Rightarrow> element" where
  "ex_device i h a s =
     Element ''Device'' [] None
       [leaf ''Id'' i, leaf ''HostName'' h, leaf ''IPAddress'' a, leaf ''Status'' s]"

definition ex_response :: "element list \<Rightarrow> element" where
  "ex_response devices = Element ''Response'' [] None [Element ''DeviceList'' [] None devices]"

definition ex_time :: struct_time where
  "ex_time = \<lparr>tm_year = 2026, tm_mon = 11, tm_mday = 4, tm_hour = 9, tm_min = 5, tm_sec = 7\<rparr>"

definition ex_world :: "int \<Rightarrow> world" where
  "ex_world status =
     \<lparr>respond = (\<lambda>req. Inr \<lparr>status_code = status, response_headers = [],
                               response_text = ''<Response/>''\<rparr>),
      sent = [],
      localtime = ex_time,
      xml_requests = (\<lambda>name. if name = ''get_details_of_all_devices.xml''
                              then Some ''<Request/>'' else None)\<rparr>"

definition ex_self :: CspcApi where
  "ex_self = CspcApi_init ''1.1.1.1'' ''user'' ''pw'' True"

definition ex_template :: element where
  "ex_template =
     Element (qname ''Request'') [] None
       [Element (qname ''Job'') [] None
          [Element (qname ''DeviceList'') [] None [Element (qname ''DeviceList'') [] None []]],
        Element (qname ''DeviceList'') [(''n'', ''2'')] None []]"

section \<open>The display string\<close>

lemma CspcApi_init_sel:
  "host (CspcApi_init h u p v) = h @ '':8001''"
  "user (CspcApi_init h u p v) = u"
  "password (CspcApi_init h u p v) = p"
  "kw_verify (kwargs (CspcApi_init h u p v)) = v"
  "headers (CspcApi_init h u p v) = kw_headers (kwargs (CspcApi_init h u p v))"
  by (simp_all add: CspcApi_init_def Let_def)

text \<open>
  Claim C7. For every context constructed from (host, user, password, verify) the display
  string is \<open>CspcApi("host", "user", "password", verify)\<close>: the host is the constructor's
  argument (the appended \<open>:8001\<close> is cut off again), the password appears in plaintext and
  the flag is printed as \<open>True\<close> or \<open>False\<close>. For \<open>1.1.1.1\<close>, \<open>user\<close>, \<open>pw\<close>, true the
  string is \<open>CspcApi("1.1.1.1", "user", "pw", True)\<close>.
\<close>

theorem str_of_constructed_context:
  \<open>CspcApi_str (CspcApi_init h u p v) =
     ''CspcApi("'' @ h @ ''", "'' @ u @ ''", "'' @ p @ ''", '' @ (if v then ''True'' else ''False'') @ '')''
   \<and> CspcApi_str (CspcApi_init ''1.1.1.1'' ''user'' ''pw'' True) =
     ''CspcApi("1.1.1.1", "user", "pw", True)''\<close>
  by (simp add: CspcApi_str_def CspcApi_init_sel str_bool_def)

section \<open>Posting XML\<close>

text \<open>
  Claim C3. When the appliance answers the POST of \<open>_xml\<close> with a response, the call
  raises exactly when the status code is not 200; the error is then the \<open>RuntimeError\<close>
  carrying that response, and with status 200 the result is the response body unchanged.
\<close>

theorem xml_raises_iff_not_200:
  assumes "respond w
             \<lparr>url = ''https://'' @ host self @ ''/cspc/xml'', data = Some payload, files = [],
              req_headers = kw_headers (kwargs self), req_verify = kw_verify (kwargs self)\<rparr>
           = Inr response"
  shows "(isl (fst (xml self payload w)) \<longleftrightarrow> status_code response \<noteq> 200)
       \<and> (status_code response \<noteq> 200 \<longrightarrow>
            fst (xml self payload w) = Inl (RuntimeError response))
       \<and> (status_code response = 200 \<longrightarrow>
            fst (xml self payload w) = Inr (response_text response))"
  using assms by (simp add: xml_def Let_def)

theorem xml_raises_iff_not_200_witness:
  "fst (xml ex_self ''<Request/>'' (ex_world 404)) =
     Inl (RuntimeError \<lparr>status_code = 404, response_headers = [],
                        response_text = ''<Response/>''\<rparr>)
   \<and> fst (xml ex_self ''<Request/>'' (ex_world 200)) = Inr ''<Response/>''"
proof -
  let ?r = "\<lambda>s. \<lparr>status_code = s, response_headers = [], response_text = ''<Response/>''\<rparr>"
  have a: "respond (ex_world s) req = Inr (?r s)" for s req
    by (simp add: ex_world_def)
  show ?thesis
    using xml_raises_iff_not_200 [where w = "ex_world 404" and self = ex_self
          and payload = "''<Request/>''", OF a]
      xml_raises_iff_not_200 [where w = "ex_world 200" and self = ex_self
          and payload = "''<Request/>''", OF a]
    by simp
qed

section \<open>Finding a container element\<close>

lemma iter_paths_snd:
  "map snd (iter_paths e) = iter e"
  "map snd (iter_paths_from i cs) = concat (map iter cs)"
  by (induction e and i cs rule: iter_paths_iter_paths_from.induct)
     (simp_all add: case_prod_unfold comp_def)

lemma iter_paths_elem_at:
  "(p, x) \<in> set (iter_paths e) \<Longrightarrow> elem_at e p = Some x"
  "(p, x) \<in> set (iter_paths_from i cs) \<Longrightarrow>
     \<exists>j q. p = (i + j) # q \<and> j < length cs \<and> elem_at (cs ! j) q = Some x"
proof (induction e and i cs arbitrary: p x and p x rule: iter_paths_iter_paths_from.induct)
  case (1 t a y cs)
  then show ?case by fastforce
next
  case (2 i)
  then show ?case by simp
next
  case (3 i c cs)
  from "3.prems" consider
      (first) q where "p = i # q" "(q, x) \<in> set (iter_paths c)"
    | (later) "(p, x) \<in> set (iter_paths_from (Suc i) cs)"
    by auto
  then show ?case
  proof cases
    case first
    then have "elem_at c q = Some x" using "3.IH"(1) by blast
    with first show ?thesis by (intro exI [of _ 0] exI [of _ q]) simp
  next
    case later
    then obtain j q where "p = (Suc i + j) # q" "j < length cs" "elem_at (cs ! j) q = Some x"
      using "3.IH"(2) by blast
    then show ?thesis by (intro exI [of _ "Suc j"] exI [of _ q]) simp
  qed
qed

lemma iter_paths_from_elem_at:
  assumes "(p, x) \<in> set (iter_paths_from 0 (children e))"
  shows "elem_at e p = Some x"
  using iter_paths_elem_at(2) [OF assms] by auto

lemma elem_at_append_at:
  "elem_at e p = Some (Element t a x cs) \<Longrightarrow>
   elem_at (append_at e p c) p = Some (Element t a x (cs @ [c]))"
proof (induction e p c rule: append_at.induct)
  case (1 t a x cs c)
  then show ?case by simp
next
  case (2 t a x cs i p c)
  then show ?case by (auto split: if_splits)
qed

lemma elem_at_iter_paths:
  "elem_at e p = Some x \<Longrightarrow> (p, x) \<in> set (iter_paths e)"
  "j < length cs \<Longrightarrow> elem_at (cs ! j) q = Some x \<Longrightarrow>
     ((i + j) # q, x) \<in> set (iter_paths_from i cs)"
proof (induction e and i cs arbitrary: p x and j q x rule: iter_paths_iter_paths_from.induct)
  case (1 t a y cs)
  show ?case
  proof (cases p)
    case Nil
    with "1.prems" have "x = Element t a y cs" by simp
    with Nil show ?thesis by simp
  next
    case (Cons j q)
    with "1.prems" have "j < length cs" "elem_at (cs ! j) q = Some x"
      by (auto split: if_splits)
    then have "((0 + j) # q, x) \<in> set (iter_paths_from 0 cs)" by (rule "1.IH")
    with Cons show ?thesis by simp
  qed
next
  case (2 i)
  then show ?case by simp
next
  case (3 i c cs)
  show ?case
  proof (cases j)
    case 0
    with "3.prems" have "(q, x) \<in> set (iter_paths c)" using "3.IH"(1) by simp
    with 0 show ?thesis by force
  next
    case (Suc k)
    with "3.prems" have "((Suc i + k) # q, x) \<in> set (iter_paths_from (Suc i) cs)"
      using "3.IH"(2) [of k q x] by simp
    with Suc show ?thesis by simp
  qed
qed

lemma elem_at_iter_paths_from:
  assumes "p \<noteq> []" "elem_at e p = Some x"
  shows "(p, x) \<in> set (iter_paths_from 0 (children e))"
proof -
  from assms obtain j q where p: "p = j # q" by (cases p) auto
  with assms(2) have "j < length (children e)" "elem_at (children e ! j) q = Some x"
    by (auto split: if_splits)
  then have "((0 + j) # q, x) \<in> set (iter_paths_from 0 (children e))"
    by (rule elem_at_iter_paths(2))
  with p show ?thesis by simp
qed

text \<open>Document order on positions is the lexicographic order of the index lists: an
  element comes before its descendants, and before everything below a later sibling.\<close>

lemma iter_paths_sorted:
  "sorted_wrt (<) (map fst (iter_paths e))"
  "sorted_wrt (<) (map fst (iter_paths_from i cs))
     \<and> (\<forall>p\<in>fst ` set (iter_paths_from i cs). \<exists>j q. p = j # q \<and> i \<le> j)"
proof (induction e and i cs rule: iter_paths_iter_paths_from.induct)
  case (1 t a y cs)
  then show ?case by auto
next
  case (2 i)
  then show ?case by simp
next
  case (3 i c cs)
  have a: "sorted_wrt (<) (map fst (map (\<lambda>(p, e). (i # p, e)) (iter_paths c)))"
    using "3.IH"(1) by (simp add: sorted_wrt_map case_prod_unfold)
  have b: "\<forall>p\<in>fst ` set (iter_paths_from (Suc i) cs). \<exists>j q. p = j # q \<and> Suc i \<le> j"
    using "3.IH"(2) by simp
  have c: "\<forall>p\<in>fst ` set (map (\<lambda>(p, e). (i # p, e)) (iter_paths c)).
             \<forall>p'\<in>fst ` set (iter_paths_from (Suc i) cs). p < p'"
    using b by fastforce
  show ?case
    using a "3.IH"(2) b c
    by (simp add: sorted_wrt_append) fastforce
qed

lemma find_first_sorted:
  fixes xs :: "('k :: linorder \<times> 'v) list"
  shows "sorted_wrt (<) (map fst xs) \<Longrightarrow> List.find P xs = Some x \<Longrightarrow> y \<in> set xs \<Longrightarrow> P y
         \<Longrightarrow> fst x \<le> fst y"
proof (induction xs)
  case Nil
  then show ?case by simp
next
  case (Cons z zs)
  show ?case
  proof (cases "P z")
    case True
    with Cons.prems have "x = z" by simp
    with Cons.prems show ?thesis by auto
  next
    case False
    with Cons.prems have "List.find P zs = Some x" "y \<in> set zs" by auto
    with Cons show ?thesis by simp
  qed
qed

lemma get_xml_elem_None:
  "get_xml_elem path tree = Inr None \<longleftrightarrow>
     (\<forall>e\<in>set (concat (map iter (children tree))). tag e \<noteq> qname path)"
proof -
  have "set (concat (map iter (children tree))) = snd ` set (iter_paths_from 0 (children tree))"
    using iter_paths_snd(2) [of 0 "children tree"] by (metis set_map)
  then show ?thesis
    by (auto simp: get_xml_elem_def find_None_iff)
qed

lemma get_xml_elem_Some:
  assumes "get_xml_elem path tree = Inr (Some p)"
  shows "\<exists>e. p \<noteq> [] \<and> elem_at tree p = Some e \<and> tag e = qname path
           \<and> (\<forall>p' e'. p' \<noteq> [] \<and> elem_at tree p' = Some e' \<and> tag e' = qname path
                 \<longrightarrow> p \<le> p')"
proof -
  let ?xs = "iter_paths_from 0 (children tree)"
  let ?P = "\<lambda>(p, e). tag e = qname path"
  from assms obtain e where f: "List.find ?P ?xs = Some (p, e)"
    by (auto simp: get_xml_elem_def)
  then have m: "(p, e) \<in> set ?xs" "tag e = qname path"
    by (auto simp: find_Some_iff in_set_conv_nth)
  from m(1) have at: "elem_at tree p = Some e" by (rule iter_paths_from_elem_at)
  from m(1) iter_paths_sorted(2) [of 0 "children tree"] have ne: "p \<noteq> []" by force
  have "p \<le> p'" if "p' \<noteq> []" "elem_at tree p' = Some e'" "tag e' = qname path" for p' e'
  proof -
    from that(1,2) have "(p', e') \<in> set ?xs" by (rule elem_at_iter_paths_from)
    moreover have "?P (p', e')" using that(3) by simp
    moreover have "sorted_wrt (<) (map fst ?xs)"
      using iter_paths_sorted(2) [of 0 "children tree"] by simp
    ultimately have "fst (p, e) \<le> fst (p', e')"
      using f find_first_sorted [of ?xs ?P "(p, e)" "(p', e')"] by blast
    then show ?thesis by simp
  qed
  with ne at m(2) show ?thesis by blast
qed

text \<open>
  Claim C4, as the code has it, for a plain tag name. When no proper descendant of the
  given root carries the namespace-qualified tag, \<open>_get_xml_elem\<close> returns \<open>None\<close>; it does
  not raise, and the root itself is not searched. When some proper descendant carries the
  tag, the function returns a reference to one of them, and to the first in document order:
  its position is below the root, the element there has the tag, and every other position
  below the root with an element of that tag comes later. Appending a child through the
  reference succeeds, and the element at that position then has the child as its last one.
\<close>

theorem get_xml_elem_first_descendant:
  assumes "plain_name path"
  shows "((\<forall>e\<in>set (concat (map iter (children tree))). tag e \<noteq> qname path) \<longrightarrow>
            get_xml_elem path tree = Inr None)
       \<and> ((\<exists>e\<in>set (concat (map iter (children tree))). tag e = qname path) \<longrightarrow>
            (\<exists>p e. get_xml_elem path tree = Inr (Some p)
               \<and> p \<noteq> [] \<and> elem_at tree p = Some e \<and> tag e = qname path
               \<and> (\<forall>p' e'. p' \<noteq> [] \<and> elem_at tree p' = Some e' \<and> tag e' = qname path
                     \<longrightarrow> p \<le> p')
               \<and> (\<forall>c. \<exists>tree'. append_child tree (Some p) c = Inr tree'
                     \<and> elem_at tree' p
                         = Some (Element (tag e) (attrib e) (etext e) (children e @ [c])))))"
proof (intro conjI impI)
  assume "\<forall>e\<in>set (concat (map iter (children tree))). tag e \<noteq> qname path"
  then show "get_xml_elem path tree = Inr None" by (simp add: get_xml_elem_None)
next
  assume ex: "\<exists>e\<in>set (concat (map iter (children tree))). tag e = qname path"
  obtain h where h: "get_xml_elem path tree = Inr h" by (simp add: get_xml_elem_def)
  from ex have "get_xml_elem path tree \<noteq> Inr None" by (auto simp: get_xml_elem_None)
  with h obtain p where p: "get_xml_elem path tree = Inr (Some p)" by (cases h) auto
  then obtain e where e: "p \<noteq> []" "elem_at tree p = Some e" "tag e = qname path"
      "\<forall>p' e'. p' \<noteq> [] \<and> elem_at tree p' = Some e' \<and> tag e' = qname path \<longrightarrow> p \<le> p'"
    using get_xml_elem_Some by blast
  have "elem_at (append_at tree p c) p
          = Some (Element (tag e) (attrib e) (etext e) (children e @ [c]))" for c
    using e(2) elem_at_append_at [of tree p "tag e" "attrib e" "etext e" "children e" c]
    by simp
  then have "\<forall>c. \<exists>tree'. append_child tree (Some p) c = Inr tree'
                  \<and> elem_at tree' p
                      = Some (Element (tag e) (attrib e) (etext e) (children e @ [c]))"
    by (simp add: append_child_def)
  with p e show "\<exists>p e. get_xml_elem path tree = Inr (Some p)
               \<and> p \<noteq> [] \<and> elem_at tree p = Some e \<and> tag e = qname path
               \<and> (\<forall>p' e'. p' \<noteq> [] \<and> elem_at tree p' = Some e' \<and> tag e' = qname path
                     \<longrightarrow> p \<le> p')
               \<and> (\<forall>c. \<exists>tree'. append_child tree (Some p) c = Inr tree'
                     \<and> elem_at tree' p
                         = Some (Element (tag e) (attrib e) (etext e) (children e @ [c])))"
    by blast
qed

text \<open>
  In \<open>ex_template\<close> three elements are tagged \<open>DeviceList\<close>, at the positions 0.0, 0.0.0 and
  1; the last one equals the one at 0.0.0 in all but its attributes. The reference returned
  is the position 0.0, and a device appended through it becomes the second child there.
\<close>

theorem get_xml_elem_first_descendant_witness:
  "plain_name ''DeviceList''
   \<and> get_xml_elem ''DeviceList'' ex_template = Inr (Some [0, 0])
   \<and> map (map_option tag \<circ> elem_at ex_template) [[0, 0], [0, 0, 0], [1]]
       = [Some (qname ''DeviceList''), Some (qname ''DeviceList''), Some (qname ''DeviceList'')]
   \<and> (\<exists>tree'. append_child ex_template (Some [0, 0]) (leaf ''Device'' ''d'') = Inr tree'
         \<and> elem_at tree' [0, 0]
             = Some (Element (qname ''DeviceList'') [] None
                       [Element (qname ''DeviceList'') [] None [], leaf ''Device'' ''d'']))"
proof -
  have pl: "plain_name ''DeviceList''" by (simp add: plain_name_def)
  have a: "elem_at ex_template [0, 0]
       = Some (Element (qname ''DeviceList'') [] None [Element (qname ''DeviceList'') [] None []])"
    by (simp add: ex_template_def)
  have b: "elem_at ex_template [0, 0, 0] = Some (Element (qname ''DeviceList'') [] None [])"
    "elem_at ex_template [1] = Some (Element (qname ''DeviceList'') [(''n'', ''2'')] None [])"
    by (simp_all add: ex_template_def)
  have "Element (qname ''DeviceList'') [(''n'', ''2'')] None []
          \<in> set (concat (map iter (children ex_template)))"
    by (simp add: ex_template_def)
  then have ex: "\<exists>e\<in>set (concat (map iter (children ex_template))). tag e = qname ''DeviceList''"
    by (rule bexI [rotated]) simp
  from get_xml_elem_first_descendant [OF pl, of ex_template, THEN conjunct2, THEN mp, OF ex]
  obtain p e where pe: "get_xml_elem ''DeviceList'' ex_template = Inr (Some p)"
    "p \<noteq> []" "elem_at ex_template p = Some e" "tag e = qname ''DeviceList''"
    "\<forall>p' e'. p' \<noteq> [] \<and> elem_at ex_template p' = Some e' \<and> tag e' = qname ''DeviceList''
        \<longrightarrow> p \<le> p'"
    "\<forall>c. \<exists>tree'. append_child ex_template (Some p) c = Inr tree'
          \<and> elem_at tree' p = Some (Element (tag e) (attrib e) (etext e) (children e @ [c]))"
    by blast
  have g: "get_xml_elem ''DeviceList'' ex_template = Inr (Some [0, 0])"
    by (simp add: get_xml_elem_def ex_template_def qname_def ns_uri_def)
  with pe(1) have p: "p = [0, 0]" by simp
  with pe(3) a have "e = Element (qname ''DeviceList'') [] None [Element (qname ''DeviceList'') [] None []]"
    by simp
  with pe(6) p pl g a b show ?thesis by simp
qed

text \<open>
  The claim as the specification words it fails twice. A document without any
  \<open>DeviceList\<close> makes the function return \<open>None\<close>, not raise; and a document whose only
  \<open>DeviceList\<close> is the root has a match, yet the function returns \<open>None\<close>.
\<close>

theorem get_xml_elem_counterexample:
  "get_xml_elem ''DeviceList''
     (Element (qname ''Request'') [] None [Element (qname ''Job'') [] None []]) = Inr None
   \<and> get_xml_elem ''DeviceList'' (Element (qname ''DeviceList'') [] None []) = Inr None"
  by (simp add: get_xml_elem_def qname_def)

section \<open>Seed file rows have 36 columns\<close>

lemma split_no_sep: "sep \<notin> set x \<Longrightarrow> split sep x = [x]"
  by (induction x) auto

lemma split_append_sep: "sep \<notin> set x \<Longrightarrow> split sep (x @ sep # r) = x # split sep r"
  by (induction x) auto

lemma split_join:
  "fs \<noteq> [] \<Longrightarrow> \<forall>f\<in>set fs. sep \<notin> set f \<Longrightarrow> split sep (join sep fs) = fs"
  by (induction sep fs rule: join.induct) (auto simp: split_no_sep split_append_sep)

lemma count_join:
  "fs \<noteq> [] \<Longrightarrow> \<forall>f\<in>set fs. sep \<notin> set f \<Longrightarrow>
   count_list (join sep fs) sep = length fs - 1"
  by (induction sep fs rule: join.induct) (auto simp: count_list_0_iff)

lemma notin_join:
  "c \<noteq> sep \<Longrightarrow> \<forall>f\<in>set fs. c \<notin> set f \<Longrightarrow> c \<notin> set (join sep fs)"
  by (induction sep fs rule: join.induct) auto

lemma entry_join:
  "get_formatted_csv_device_entry ip hn un pw en ro rw =
     join (CHR '','')
       ([ip, hn] @ replicate 6 [] @ [ro, rw] @ replicate 6 [] @ [un, pw, en] @ replicate 17 [])
     @ ''\<newline>''"
  by (simp add: get_formatted_csv_device_entry_def Let_def numeral_eq_Suc)

text \<open>
  Claim C5, as the code has it. The row is always the 36 column values joined by commas and
  followed by a newline: the address in column 1, the host name in column 2, the SNMP read
  and write communities in columns 9 and 10, user name, password and enable password in
  columns 17, 18 and 19, every other column empty. When no argument contains a comma or a
  newline, the row is a single line: cut at its commas, the text before the final newline
  gives back exactly these 36 fields, and it holds 35 commas and no newline.
\<close>

theorem csv_entry_columns:
  fixes ip hn un pw en ro rw :: string
  defines "cols \<equiv>
    [ip, hn] @ replicate 6 [] @ [ro, rw] @ replicate 6 [] @ [un, pw, en] @ replicate 17 []"
  defines "row \<equiv> get_formatted_csv_device_entry ip hn un pw en ro rw"
  shows "length cols = 36
       \<and> row = join (CHR '','') cols @ ''\<newline>''
       \<and> ((\<forall>a\<in>{ip, hn, un, pw, en, ro, rw}. CHR '','' \<notin> set a \<and> CHR ''\<newline>'' \<notin> set a) \<longrightarrow>
            split (CHR '','') (butlast row) = cols
          \<and> count_list row (CHR '','') = 35
          \<and> CHR ''\<newline>'' \<notin> set (butlast row)
          \<and> last row = CHR ''\<newline>'')"
proof -
  let ?line = "join (CHR '','') cols"
  have len: "length cols = 36" by (simp add: cols_def)
  have ne: "cols \<noteq> []" by (simp add: cols_def)
  have eq: "row = ?line @ ''\<newline>''"
    unfolding cols_def row_def by (rule entry_join)
  then have bl: "butlast row = ?line" and la: "last row = CHR ''\<newline>''"
    by simp_all
  have mem: "set cols \<subseteq> {ip, hn, un, pw, en, ro, rw, []}" by (auto simp: cols_def)
  {
    assume h: "\<forall>a\<in>{ip, hn, un, pw, en, ro, rw}. CHR '','' \<notin> set a \<and> CHR ''\<newline>'' \<notin> set a"
    from h mem have c: "\<forall>f\<in>set cols. CHR '','' \<notin> set f" by auto
    from h mem have n: "\<forall>f\<in>set cols. CHR ''\<newline>'' \<notin> set f" by auto
    have "split (CHR '','') ?line = cols" using ne c by (rule split_join)
    moreover have "count_list ?line (CHR '','') = 35"
      using count_join [OF ne c] len by simp
    moreover have "CHR ''\<newline>'' \<notin> set ?line"
      using notin_join [OF _ n] by simp
    ultimately have "split (CHR '','') (butlast row) = cols
          \<and> count_list row (CHR '','') = 35
          \<and> CHR ''\<newline>'' \<notin> set (butlast row)
          \<and> last row = CHR ''\<newline>''"
      using bl la eq by simp
  }
  with len eq show ?thesis by blast
qed

text \<open>The row for \<open>10.0.0.1\<close> alone: the address, then 35 empty fields.\<close>

theorem csv_entry_columns_witness:
  "split (CHR '','') (butlast (get_formatted_csv_device_entry ''10.0.0.1'' [] [] [] [] [] []))
     = ''10.0.0.1'' # replicate 35 []
   \<and> count_list (get_formatted_csv_device_entry ''10.0.0.1'' [] [] [] [] [] []) (CHR '','') = 35
   \<and> last (get_formatted_csv_device_entry ''10.0.0.1'' [] [] [] [] [] []) = CHR ''\<newline>''"
proof -
  have h: "\<forall>a\<in>{''10.0.0.1'', [], [], [], [], [], []}. CHR '','' \<notin> set a \<and> CHR ''\<newline>'' \<notin> set a"
    by simp
  show ?thesis
    using csv_entry_columns [of "''10.0.0.1''" "[]" "[]" "[]" "[]" "[]" "[]"] h
    by (simp add: numeral_eq_Suc)
qed

text \<open>
  The claim as the specification words it says "always"; a host name with a comma in it
  gives a row of 36 commas, which reads as 37 fields.
\<close>

theorem csv_entry_counterexample:
  "count_list (get_formatted_csv_device_entry ''10.0.0.1'' ''sw,1'' [] [] [] [] []) (CHR '','') = 36
   \<and> length (split (CHR '','')
               (butlast (get_formatted_csv_device_entry ''10.0.0.1'' ''sw,1'' [] [] [] [] []))) = 37"
  by (simp add: get_formatted_csv_device_entry_def Let_def)

section \<open>The seed file upload\<close>

lemma str_nat_digit: "n < 10 \<Longrightarrow> str_nat n = [digit n]"
  by (simp add: str_nat.simps)

lemma str_nat_step: "10 \<le> n \<Longrightarrow> str_nat n = str_nat (n div 10) @ [digit (n mod 10)]"
  by (subst str_nat.simps) simp

lemma str_nat_4:
  assumes "1000 \<le> n" "n \<le> 9999"
  shows "str_nat n =
    [digit (n div 1000), digit (n div 100 mod 10), digit (n div 10 mod 10), digit (n mod 10)]"
proof -
  have a: "str_nat n = str_nat (n div 10) @ [digit (n mod 10)]"
    using assms by (intro str_nat_step) simp
  have b: "str_nat (n div 10) = str_nat (n div 100) @ [digit (n div 10 mod 10)]"
    using assms str_nat_step [of "n div 10"] by (simp add: div_mult2_eq [symmetric])
  have c: "str_nat (n div 100) = str_nat (n div 1000) @ [digit (n div 100 mod 10)]"
    using assms str_nat_step [of "n div 100"] by (simp add: div_mult2_eq [symmetric])
  have d: "str_nat (n div 1000) = [digit (n div 1000)]"
    using assms by (intro str_nat_digit) simp
  show ?thesis by (simp add: a b c d)
qed

lemma pad2_digits: "n < 100 \<Longrightarrow> pad2 n = [digit (n div 10), digit (n mod 10)]"
proof (cases "n < 10")
  case True
  then show ?thesis by (simp add: pad2_def str_nat_digit digit_def)
next
  case False
  assume "n < 100"
  with False have "str_nat n = str_nat (n div 10) @ [digit (n mod 10)]" "n div 10 < 10"
    by (simp_all add: str_nat_step)
  with False show ?thesis by (simp add: pad2_def str_nat_digit)
qed

lemma strftime_stamp:
  "strftime ''%Y%m%d-%H%M%S'' t =
     str_nat (tm_year t) @ pad2 (tm_mon t) @ pad2 (tm_mday t) @ ''-''
       @ pad2 (tm_hour t) @ pad2 (tm_min t) @ pad2 (tm_sec t)"
  by (simp add: strftime.simps directive_def)

text \<open>
  Claim C6. For every context, whatever its verification flag, the one request that
  \<open>send_and_import_seed_file_csv\<close> posts goes to \<open>/cspc/seedfile\<close> on the context's host
  with certificate verification off; its two parts are \<open>request\<close> and \<open>file\<close>, and the file
  is named after the group and the clock: group name, a hyphen, the time formatted with
  \<open>%Y%m%d-%H%M%S\<close>, and \<open>.csv\<close>. For a year of four digits that time is eight digits, a
  hyphen and six digits: YYYYMMDD-HHMMSS.
\<close>

theorem seed_file_post_unverified:
  fixes h u p g csv :: string and v :: bool and w :: world
  defines "self \<equiv> CspcApi_init h u p v"
  defines "t \<equiv> localtime w"
  defines "name \<equiv> g @ ''-'' @ strftime ''%Y%m%d-%H%M%S'' t @ ''.csv''"
  shows "sent (snd (send_and_import_seed_file_csv self csv g w)) =
           sent w @ [\<lparr>url = ''https://'' @ h @ '':8001'' @ ''/cspc/seedfile'',
                      data = None,
                      files = [(''request'', None, xmlrequest g name), (''file'', Some name, csv)],
                      req_headers = headers self,
                      req_verify = False\<rparr>]
       \<and> (1000 \<le> tm_year t \<and> tm_year t \<le> 9999 \<and> tm_mon t < 100 \<and> tm_mday t < 100
            \<and> tm_hour t < 100 \<and> tm_min t < 100 \<and> tm_sec t < 100 \<longrightarrow>
          strftime ''%Y%m%d-%H%M%S'' t =
            [digit (tm_year t div 1000), digit (tm_year t div 100 mod 10),
             digit (tm_year t div 10 mod 10), digit (tm_year t mod 10),
             digit (tm_mon t div 10), digit (tm_mon t mod 10),
             digit (tm_mday t div 10), digit (tm_mday t mod 10),
             CHR ''-'',
             digit (tm_hour t div 10), digit (tm_hour t mod 10),
             digit (tm_min t div 10), digit (tm_min t mod 10),
             digit (tm_sec t div 10), digit (tm_sec t mod 10)])"
proof -
  have "host self = h @ '':8001''"
    by (simp add: self_def CspcApi_init_sel)
  then have "sent (snd (send_and_import_seed_file_csv self csv g w)) =
           sent w @ [\<lparr>url = ''https://'' @ h @ '':8001'' @ ''/cspc/seedfile'',
                      data = None,
                      files = [(''request'', None, xmlrequest g name), (''file'', Some name, csv)],
                      req_headers = headers self,
                      req_verify = False\<rparr>]"
    by (simp add: send_and_import_seed_file_csv_def Let_def name_def t_def split: sum.split)
  moreover have "strftime ''%Y%m%d-%H%M%S'' t =
            [digit (tm_year t div 1000), digit (tm_year t div 100 mod 10),
             digit (tm_year t div 10 mod 10), digit (tm_year t mod 10),
             digit (tm_mon t div 10), digit (tm_mon t mod 10),
             digit (tm_mday t div 10), digit (tm_mday t mod 10),
             CHR ''-'',
             digit (tm_hour t div 10), digit (tm_hour t mod 10),
             digit (tm_min t div 10), digit (tm_min t mod 10),
             digit (tm_sec t div 10), digit (tm_sec t mod 10)]"
    if "1000 \<le> tm_year t" "tm_year t \<le> 9999" "tm_mon t < 100" "tm_mday t < 100"
       "tm_hour t < 100" "tm_min t < 100" "tm_sec t < 100"
    using that by (simp only: strftime_stamp str_nat_4 pad2_digits) simp
  ultimately show ?thesis by blast
qed

text \<open>A context built with verification on, group \<open>lab\<close>, 4 November 2026, 09:05:07.\<close>

theorem seed_file_post_unverified_witness:
  "map req_verify (sent (snd (send_and_import_seed_file_csv ex_self ''10.0.0.1,sw1'' ''lab''
                           (ex_world 200)))) = [False]
   \<and> map url (sent (snd (send_and_import_seed_file_csv ex_self ''10.0.0.1,sw1'' ''lab''
                           (ex_world 200)))) = [''https://1.1.1.1:8001/cspc/seedfile'']
   \<and> map (map (fst \<circ> snd) \<circ> files)
        (sent (snd (send_and_import_seed_file_csv ex_self ''10.0.0.1,sw1'' ''lab''
                           (ex_world 200)))) = [[None, Some ''lab-20261104-090507.csv'']]
   \<and> kw_verify (kwargs ex_self)"
proof -
  note th = seed_file_post_unverified [where h = "''1.1.1.1''" and u = "''user''"
        and p = "''pw''" and v = True and csv = "''10.0.0.1,sw1''" and g = "''lab''"
        and w = "ex_world 200"]
  have t: "localtime (ex_world 200) = ex_time" "sent (ex_world 200) = []"
    by (simp_all add: ex_world_def)
  have r: "1000 \<le> tm_year ex_time \<and> tm_year ex_time \<le> 9999 \<and> tm_mon ex_time < 100
      \<and> tm_mday ex_time < 100 \<and> tm_hour ex_time < 100 \<and> tm_min ex_time < 100
      \<and> tm_sec ex_time < 100"
    by (simp add: ex_time_def)
  have d: "strftime ''%Y%m%d-%H%M%S'' ex_time = ''20261104-090507''"
    using th [THEN conjunct2, THEN mp] r by (simp add: t ex_time_def digit_def)
  show ?thesis
    using th [THEN conjunct1] by (simp add: t d ex_self_def CspcApi_init_sel)
qed

section \<open>Unreachable devices\<close>

lemma get_devices_ex:
  "fst (get_devices (\<lambda>body. Inr tree) self (ex_world 200))
     = Inr (findall_descendants ''Device'' tree)"
  by (simp add: get_devices_def get_xml_payload_def xml_def Let_def ex_world_def)

lemma fst_get_unreachable_devices:
  "fst (get_devices fromstring self w) = Inr devices \<Longrightarrow>
   fst (get_unreachable_devices fromstring self w) = unreachable_loop devices []"
  by (cases "get_devices fromstring self w") (auto simp: get_unreachable_devices_def)

lemma unreachable_loop_ok:
  "\<forall>d\<in>set ds. findtext d ''Status'' \<noteq> None \<Longrightarrow>
   unreachable_loop ds acc =
     Inr (acc @ map (\<lambda>d. [(''Id'', str_opt (findtext d ''Id'')),
                           (''HostName'', str_opt (findtext d ''HostName'')),
                           (''IPAddress'', str_opt (findtext d ''IPAddress'')),
                           (''Status'', str_opt (findtext d ''Status''))])
                 (filter (\<lambda>d. map_option lower (findtext d ''Status'') \<noteq> Some ''reachable'')
                    ds))"
proof (induction ds arbitrary: acc)
  case Nil
  then show ?case by simp
next
  case (Cons d ds)
  then obtain s where s: "findtext d ''Status'' = Some s" by auto
  from Cons.prems have rest: "\<forall>d\<in>set ds. findtext d ''Status'' \<noteq> None" by simp
  show ?case
  proof (cases "lower s = ''reachable''")
    case True
    with s Cons.IH [OF rest] show ?thesis by simp
  next
    case False
    with s Cons.IH [OF rest] show ?thesis by (simp add: Let_def)
  qed
qed

lemma unreachable_loop_err:
  "\<exists>d\<in>set ds. findtext d ''Status'' = None \<Longrightarrow> unreachable_loop ds acc = Inl AttributeError"
proof (induction ds arbitrary: acc)
  case Nil
  then show ?case by simp
next
  case (Cons d ds)
  show ?case
  proof (cases "findtext d ''Status''")
    case None
    then show ?thesis by simp
  next
    case (Some s)
    with Cons.prems have "\<exists>d\<in>set ds. findtext d ''Status'' = None" by auto
    with Some Cons.IH show ?thesis by (simp add: Let_def)
  qed
qed

text \<open>
  Claim C1, as the code has it. When \<open>get_devices\<close> returns a device list in which every
  device has a \<open>Status\<close> child, \<open>get_unreachable_devices\<close> returns, in input order,
  exactly the devices whose lower-cased \<open>Status\<close> text is not \<open>reachable\<close>, each as the
  dictionary with the four keys \<open>Id\<close>, \<open>HostName\<close>, \<open>IPAddress\<close>, \<open>Status\<close> and the
  stringified \<open>findtext\<close> of each as value.
\<close>

theorem unreachable_devices_filter:
  assumes "get_devices fromstring self w = (Inr devices, w')"
    and "\<forall>d\<in>set devices. findtext d ''Status'' \<noteq> None"
  shows "get_unreachable_devices fromstring self w =
           (Inr (map (\<lambda>d. [(''Id'', str_opt (findtext d ''Id'')),
                            (''HostName'', str_opt (findtext d ''HostName'')),
                            (''IPAddress'', str_opt (findtext d ''IPAddress'')),
                            (''Status'', str_opt (findtext d ''Status''))])
                  (filter (\<lambda>d. map_option lower (findtext d ''Status'') \<noteq> Some ''reachable'')
                     devices)),
            w')"
  using assms(1) unreachable_loop_ok [OF assms(2), of "[]"]
  by (simp add: get_unreachable_devices_def)

text \<open>Three devices with status \<open>Reachable\<close>, \<open>Unreachable\<close> and \<open>reachable\<close>: only the
  second is returned.\<close>

theorem unreachable_devices_filter_witness:
  "fst (get_unreachable_devices
          (\<lambda>body. Inr (ex_response [ex_device ''1'' ''sw1'' ''10.0.0.1'' ''Reachable'',
                                     ex_device ''2'' ''sw2'' ''10.0.0.2'' ''Unreachable'',
                                     ex_device ''3'' ''sw3'' ''10.0.0.3'' ''reachable'']))
          ex_self (ex_world 200))
   = Inr [[(''Id'', ''2''), (''HostName'', ''sw2''), (''IPAddress'', ''10.0.0.2''),
           (''Status'', ''Unreachable'')]]"
proof -
  let ?ds = "[ex_device ''1'' ''sw1'' ''10.0.0.1'' ''Reachable'',
              ex_device ''2'' ''sw2'' ''10.0.0.2'' ''Unreachable'',
              ex_device ''3'' ''sw3'' ''10.0.0.3'' ''reachable'']"
  let ?f = "\<lambda>body :: string. (Inr (ex_response ?ds) :: pyerror + element)"
  have "fst (get_devices ?f ex_self (ex_world 200)) = Inr ?ds"
    by (simp add: get_devices_ex)
       (simp add: findall_descendants_def ex_response_def ex_device_def leaf_def)
  then have g: "get_devices ?f ex_self (ex_world 200)
                  = (Inr ?ds, snd (get_devices ?f ex_self (ex_world 200)))"
    by (simp add: prod_eq_iff)
  have s: "\<forall>d\<in>set ?ds. findtext d ''Status'' \<noteq> None"
    by (simp add: findtext_def ex_device_def leaf_def)
  show ?thesis
    using unreachable_devices_filter [OF g s]
    by (simp add: findtext_def ex_device_def leaf_def str_opt_def lower_def lower_char_def)
qed

text \<open>
  The claim as the specification words it speaks of every device list. A list with a device
  that has no \<open>Status\<close> child is not filtered: the call raises \<open>AttributeError\<close>.
\<close>

theorem unreachable_devices_counterexample:
  "fst (get_unreachable_devices
          (\<lambda>body. Inr (ex_response [ex_device ''1'' ''sw1'' ''10.0.0.1'' ''Unreachable'',
                                     Element ''Device'' [] None [leaf ''Id'' ''2'']]))
          ex_self (ex_world 200))
   = Inl AttributeError"
proof -
  let ?ds = "[ex_device ''1'' ''sw1'' ''10.0.0.1'' ''Unreachable'',
              Element ''Device'' [] None [leaf ''Id'' ''2'']]"
  let ?f = "\<lambda>body :: string. (Inr (ex_response ?ds) :: pyerror + element)"
  have "fst (get_devices ?f ex_self (ex_world 200)) = Inr ?ds"
    by (simp add: get_devices_ex)
       (simp add: findall_descendants_def ex_response_def ex_device_def leaf_def)
  then have "fst (get_unreachable_devices ?f ex_self (ex_world 200)) = unreachable_loop ?ds []"
    by (rule fst_get_unreachable_devices)
  moreover have "unreachable_loop ?ds [] = Inl AttributeError"
    by (rule unreachable_loop_err) (simp add: findtext_def leaf_def)
  ultimately show ?thesis by (simp only:)
qed

text \<open>
  Claim C10. For the device list that \<open>get_devices\<close> returned, \<open>get_unreachable_devices\<close>
  returns a result exactly when every device has a \<open>Status\<close> child. When some device has
  none, the call raises \<open>AttributeError\<close>; that device is neither skipped nor included,
  and nothing is returned.
\<close>

theorem unreachable_devices_needs_status:
  assumes "get_devices fromstring self w = (Inr devices, w')"
  shows "((\<exists>r. fst (get_unreachable_devices fromstring self w) = Inr r) \<longleftrightarrow>
            (\<forall>d\<in>set devices. findtext d ''Status'' \<noteq> None))
       \<and> ((\<exists>d\<in>set devices. findtext d ''Status'' = None) \<longrightarrow>
            get_unreachable_devices fromstring self w = (Inl AttributeError, w'))"
proof (cases "\<forall>d\<in>set devices. findtext d ''Status'' \<noteq> None")
  case True
  from unreachable_loop_ok [OF True, of "[]"] assms True show ?thesis
    by (auto simp: get_unreachable_devices_def)
next
  case False
  then have "\<exists>d\<in>set devices. findtext d ''Status'' = None" by simp
  from unreachable_loop_err [OF this, of "[]"] assms False show ?thesis
    by (auto simp: get_unreachable_devices_def)
qed

text \<open>A list whose first device is unreachable and whose second has only an \<open>Id\<close>.\<close>

theorem unreachable_devices_needs_status_witness:
  "get_unreachable_devices
     (\<lambda>body. Inr (ex_response [ex_device ''7'' ''r7'' ''10.0.7.1'' ''Unreachable'',
                                Element ''Device'' [] None [leaf ''Id'' ''8'']]))
     ex_self (ex_world 200)
   = (Inl AttributeError,
      snd (get_devices
             (\<lambda>body. Inr (ex_response [ex_device ''7'' ''r7'' ''10.0.7.1'' ''Unreachable'',
                                        Element ''Device'' [] None [leaf ''Id'' ''8'']]))
             ex_self (ex_world 200)))"
proof -
  let ?ds = "[ex_device ''7'' ''r7'' ''10.0.7.1'' ''Unreachable'',
              Element ''Device'' [] None [leaf ''Id'' ''8'']]"
  let ?f = "\<lambda>body :: string. (Inr (ex_response ?ds) :: pyerror + element)"
  have "fst (get_devices ?f ex_self (ex_world 200)) = Inr ?ds"
    by (simp add: get_devices_ex)
       (simp add: findall_descendants_def ex_response_def ex_device_def leaf_def)
  then have g: "get_devices ?f ex_self (ex_world 200)
                  = (Inr ?ds, snd (get_devices ?f ex_self (ex_world 200)))"
    by (simp add: prod_eq_iff)
  have n: "\<exists>d\<in>set ?ds. findtext d ''Status'' = None"
    by (simp add: findtext_def leaf_def)
  show ?thesis
    using unreachable_devices_needs_status [OF g, THEN conjunct2, THEN mp, OF n] .
qed

section \<open>Devices by field\<close>

lemma fst_get_devices_by:
  "fst (get_devices fromstring self w) = Inr devices \<Longrightarrow>
   fst (get_devices_by fromstring self key val w) = devices_by_loop key val devices []"
  by (cases "get_devices fromstring self w") (auto simp: get_devices_by_def)

lemma devices_by_loop_str:
  "\<forall>d\<in>set ds. findtext d key \<noteq> None \<Longrightarrow>
   devices_by_loop key (Str c) ds acc =
     Inr (acc @ map device_dict (filter (\<lambda>d. \<exists>t. findtext d key = Some t \<and> sublist c t) ds))"
proof (induction ds arbitrary: acc)
  case Nil
  then show ?case by simp
next
  case (Cons d ds)
  then obtain t where t: "findtext d key = Some t" by auto
  from Cons.prems have rest: "\<forall>d\<in>set ds. findtext d key \<noteq> None" by simp
  show ?case using t Cons.IH [OF rest] by (cases "sublist c t") simp_all
qed

lemma devices_by_loop_set:
  "\<forall>d\<in>set ds. findtext d key \<noteq> None \<Longrightarrow>
   devices_by_loop key (StrSet cs) ds acc =
     Inr (acc @ map device_dict
            (filter (\<lambda>d. \<exists>t. findtext d key = Some t \<and> (\<exists>c\<in>cs. sublist c t)) ds))"
proof (induction ds arbitrary: acc)
  case Nil
  then show ?case by simp
next
  case (Cons d ds)
  then obtain t where t: "findtext d key = Some t" by auto
  from Cons.prems have rest: "\<forall>d\<in>set ds. findtext d key \<noteq> None" by simp
  show ?case using t Cons.IH [OF rest] by (cases "\<exists>c\<in>cs. sublist c t") simp_all
qed

lemma check_in_str_empty_set: "check_in_str s (StrSet {}) = Inr False"
  by (cases s) simp_all

lemma devices_by_loop_empty_set: "devices_by_loop key (StrSet {}) ds acc = Inr acc"
  by (induction ds arbitrary: acc) (simp_all add: check_in_str_empty_set)

lemma map_of_setitem: "map_of (setitem d k v) = (map_of d)(k \<mapsto> v)"
  by (induction d) (auto simp: fun_eq_iff)

lemma keys_setitem: "fst ` set (setitem d k v) = insert k (fst ` set d)"
proof (induction d)
  case Nil
  then show ?case by simp
next
  case (Cons a d)
  obtain k' v' where a: "a = (k', v')" by (cases a)
  show ?case using Cons.IH a by (cases "k' = k") auto
qed

lemma distinct_setitem: "distinct (map fst d) \<Longrightarrow> distinct (map fst (setitem d k v))"
  by (induction d) (auto simp: keys_setitem)

lemma findtext_child:
  "c \<in> set (children e) \<Longrightarrow> \<exists>s. findtext e (tag c) = Some s"
  by (auto simp: findtext_def find_None_iff split: option.splits)

lemma findtext_None_iff: "findtext e t = None \<longleftrightarrow> t \<notin> tag ` set (children e)"
proof (cases "List.find (\<lambda>c. tag c = t) (children e)")
  case None
  then have "\<forall>c\<in>set (children e). tag c \<noteq> t" by (simp add: find_None_iff)
  then have "t \<notin> tag ` set (children e)" by auto
  moreover have "findtext e t = None" using None by (simp add: findtext_def)
  ultimately show ?thesis by simp
next
  case (Some c)
  then have "c \<in> set (children e)" "tag c = t" by (auto simp: find_Some_iff)
  with Some show ?thesis by (auto simp: findtext_def split: option.splits)
qed

lemma fold_device_dict:
  "set cs \<subseteq> set (children e) \<Longrightarrow>
   map_of (fold (\<lambda>child d. setitem d (tag child) (str_opt (findtext e (tag child)))) cs d0) t =
     (if t \<in> tag ` set cs then findtext e t else map_of d0 t)"
proof (induction cs arbitrary: d0)
  case Nil
  then show ?case by simp
next
  case (Cons c cs)
  then obtain s where "findtext e (tag c) = Some s" using findtext_child [of c e] by auto
  with Cons show ?case by (auto simp: map_of_setitem str_opt_def)
qed

lemma fold_device_dict_distinct:
  "distinct (map fst d0) \<Longrightarrow>
   distinct (map fst (fold (\<lambda>child d. setitem d (tag child) (f child)) cs d0))"
  by (induction cs arbitrary: d0) (simp_all add: distinct_setitem)

lemma map_of_device_dict: "map_of (device_dict d) = findtext d"
proof
  fix t
  show "map_of (device_dict d) t = findtext d t"
    using fold_device_dict [of "children d" d "[]" t] findtext_None_iff [of d t]
    by (auto simp: device_dict_def)
qed

lemma distinct_device_dict: "distinct (map fst (device_dict d))"
  by (simp add: device_dict_def fold_device_dict_distinct)

text \<open>
  Claim C2, as the code has it. Let the key be a plain tag name, let \<open>get_devices\<close> return
  a device list in which every child tag of every device is a plain tag name, and let every
  device have a child named by the key. Then \<open>get_devices_by\<close> retains a device exactly when
  the string value is a substring of the text of that child, or some member of the set value
  is; the retained devices come in input order, each as a dictionary with distinct keys that
  maps every child tag of the device to the text of the first child so tagged, the empty
  string for a child without text, and maps nothing else.
\<close>

theorem devices_by_filter:
  assumes "plain_name key"
    and "get_devices fromstring self w = (Inr devices, w')"
    and "\<forall>d\<in>set devices. \<forall>c\<in>set (children d). plain_name (tag c)"
    and "\<forall>d\<in>set devices. findtext d key \<noteq> None"
  shows "get_devices_by fromstring self key (Str c) w =
           (Inr (map device_dict
                  (filter (\<lambda>d. \<exists>t. findtext d key = Some t \<and> sublist c t) devices)), w')
       \<and> get_devices_by fromstring self key (StrSet cs) w =
           (Inr (map device_dict
                  (filter (\<lambda>d. \<exists>t. findtext d key = Some t \<and> (\<exists>c\<in>cs. sublist c t))
                     devices)), w')
       \<and> (\<forall>d\<in>set devices.
             map_of (device_dict d) = findtext d \<and> distinct (map fst (device_dict d)))"
  using assms(2) devices_by_loop_str [OF assms(4), of c "[]"]
    devices_by_loop_set [OF assms(4), of cs "[]"]
  by (simp add: get_devices_by_def map_of_device_dict distinct_device_dict)

text \<open>Host names \<open>switch1\<close> and \<open>router2\<close>: the string \<open>switch\<close> keeps the first device,
  the set of \<open>switch\<close> and \<open>router\<close> keeps both; all four fields are returned.\<close>

theorem devices_by_filter_witness:
  "plain_name ''HostName''
   \<and> fst (get_devices_by
          (\<lambda>body. Inr (ex_response [ex_device ''1'' ''switch1'' ''10.0.0.1'' ''Reachable'',
                                     ex_device ''2'' ''router2'' ''10.0.0.2'' ''Reachable'']))
          ex_self ''HostName'' (Str ''switch'') (ex_world 200))
     = Inr [[(''Id'', ''1''), (''HostName'', ''switch1''), (''IPAddress'', ''10.0.0.1''),
             (''Status'', ''Reachable'')]]
   \<and> fst (get_devices_by
          (\<lambda>body. Inr (ex_response [ex_device ''1'' ''switch1'' ''10.0.0.1'' ''Reachable'',
                                     ex_device ''2'' ''router2'' ''10.0.0.2'' ''Reachable'']))
          ex_self ''HostName'' (StrSet {''switch'', ''router''}) (ex_world 200))
     = Inr [[(''Id'', ''1''), (''HostName'', ''switch1''), (''IPAddress'', ''10.0.0.1''),
             (''Status'', ''Reachable'')],
            [(''Id'', ''2''), (''HostName'', ''router2''), (''IPAddress'', ''10.0.0.2''),
             (''Status'', ''Reachable'')]]"
proof -
  let ?ds = "[ex_device ''1'' ''switch1'' ''10.0.0.1'' ''Reachable'',
              ex_device ''2'' ''router2'' ''10.0.0.2'' ''Reachable'']"
  let ?f = "\<lambda>body :: string. (Inr (ex_response ?ds) :: pyerror + element)"
  have pk: "plain_name ''HostName''" by (simp add: plain_name_def)
  have "fst (get_devices ?f ex_self (ex_world 200)) = Inr ?ds"
    by (simp add: get_devices_ex)
       (simp add: findall_descendants_def ex_response_def ex_device_def leaf_def)
  then have g: "get_devices ?f ex_self (ex_world 200)
                  = (Inr ?ds, snd (get_devices ?f ex_self (ex_world 200)))"
    by (simp add: prod_eq_iff)
  have pc: "\<forall>d\<in>set ?ds. \<forall>c\<in>set (children d). plain_name (tag c)"
    by (simp add: ex_device_def leaf_def plain_name_def)
  have s: "\<forall>d\<in>set ?ds. findtext d ''HostName'' \<noteq> None"
    by (simp add: findtext_def ex_device_def leaf_def)
  have h: "findtext (ex_device i n a st) ''HostName'' = Some n" for i n a st
    by (simp add: findtext_def ex_device_def leaf_def)
  have dd: "device_dict (ex_device i n a st) =
              [(''Id'', i), (''HostName'', n), (''IPAddress'', a), (''Status'', st)]" for i n a st
    by (simp add: device_dict_def findtext_def ex_device_def leaf_def str_opt_def)
  note th = devices_by_filter [OF pk g pc s, of "''switch''" "{''switch'', ''router''}"]
  show ?thesis
    using th [THEN conjunct1] th [THEN conjunct2, THEN conjunct1] pk
    by (simp add: h dd sublist_code)
qed

text \<open>
  The claim as the specification words it speaks of every device list and every key. A
  device without the key's child makes \<open>findtext\<close> return \<open>None\<close>, and the membership test
  on \<open>None\<close> raises \<open>TypeError\<close>: no list is returned.
\<close>

theorem devices_by_counterexample:
  "fst (get_devices_by
          (\<lambda>body. Inr (ex_response [Element ''Device'' [] None [leaf ''Id'' ''1'']]))
          ex_self ''HostName'' (Str ''switch'') (ex_world 200))
   = Inl TypeError"
proof -
  let ?ds = "[Element ''Device'' [] None [leaf ''Id'' ''1'']]"
  let ?f = "\<lambda>body :: string. (Inr (ex_response ?ds) :: pyerror + element)"
  have "fst (get_devices ?f ex_self (ex_world 200)) = Inr ?ds"
    by (simp add: get_devices_ex)
       (simp add: findall_descendants_def ex_response_def leaf_def)
  then have "fst (get_devices_by ?f ex_self ''HostName'' (Str ''switch'') (ex_world 200))
               = devices_by_loop ''HostName'' (Str ''switch'') ?ds []"
    by (rule fst_get_devices_by)
  moreover have "devices_by_loop ''HostName'' (Str ''switch'') ?ds [] = Inl TypeError"
    by (simp add: findtext_def leaf_def)
  ultimately show ?thesis by (simp only:)
qed

text \<open>
  Claim C9. For every device list that \<open>get_devices\<close> returns and every key that is a plain
  tag name, \<open>get_devices_by\<close> with the empty set as value returns the empty list: no
  membership test is evaluated, so a device matches neither with an empty key field nor
  without the field.
\<close>

theorem devices_by_empty_set:
  assumes "plain_name key"
    and "get_devices fromstring self w = (Inr devices, w')"
  shows "get_devices_by fromstring self key (StrSet {}) w = (Inr [], w')"
  using assms(2) by (simp add: get_devices_by_def devices_by_loop_empty_set)

text \<open>A device whose host name is the empty string and a device without a host name.\<close>

theorem devices_by_empty_set_witness:
  "plain_name ''HostName''
   \<and> fst (get_devices_by
          (\<lambda>body. Inr (ex_response [ex_device ''1'' [] ''10.0.0.1'' ''Reachable'',
                                     Element ''Device'' [] None [leaf ''Id'' ''2'']]))
          ex_self ''HostName'' (StrSet {}) (ex_world 200))
   = Inr []"
proof -
  let ?ds = "[ex_device ''1'' [] ''10.0.0.1'' ''Reachable'',
              Element ''Device'' [] None [leaf ''Id'' ''2'']]"
  let ?f = "\<lambda>body :: string. (Inr (ex_response ?ds) :: pyerror + element)"
  have pk: "plain_name ''HostName''" by (simp add: plain_name_def)
  have "fst (get_devices ?f ex_self (ex_world 200)) = Inr ?ds"
    by (simp add: get_devices_ex)
       (simp add: findall_descendants_def ex_response_def ex_device_def leaf_def)
  then have g: "get_devices ?f ex_self (ex_world 200)
                  = (Inr ?ds, snd (get_devices ?f ex_self (ex_world 200)))"
    by (simp add: prod_eq_iff)
  show ?thesis
    using devices_by_empty_set [OF pk g] pk by simp
qed

end
